theory Spec2Isabelle
  imports Complex_Main "HOL-Library.AList"
begin

section \<open>Symbol catalog and fuzzy matcher (static/pid_symbols.js)\<close>

text \<open>
  Strings are lists of code units. The model uses \<^typ>\<open>char\<close>, so it covers the
  strings whose code units lie in U+0000..U+00FF; on that range \<open>toLowerCase\<close> and the
  regular expressions of the source are rendered exactly. Numbers that hold scores and
  coordinates are exact rationals.
\<close>

subsection \<open>Character classes\<close>

definition isLowerAZ :: "char \<Rightarrow> bool" where
  \<comment> \<open>the class \<open>[a-z]\<close>\<close>
  "isLowerAZ c = (let n = (of_char c :: nat) in 97 \<le> n \<and> n \<le> 122)"

definition isUpperAZ :: "char \<Rightarrow> bool" where
  \<comment> \<open>the class \<open>[A-Z]\<close>\<close>
  "isUpperAZ c = (let n = (of_char c :: nat) in 65 \<le> n \<and> n \<le> 90)"

definition isDigit :: "char \<Rightarrow> bool" where
  \<comment> \<open>the class \<open>[0-9]\<close>\<close>
  "isDigit c = (let n = (of_char c :: nat) in 48 \<le> n \<and> n \<le> 57)"

definition isAlnum :: "char \<Rightarrow> bool" where
  \<comment> \<open>the class \<open>[a-z0-9]\<close>\<close>
  "isAlnum c = (isLowerAZ c \<or> isDigit c)"

definition isSpace :: "char \<Rightarrow> bool" where
  \<comment> \<open>the class \<open>\s\<close> below U+0100: TAB, LF, VT, FF, CR, SPACE, NBSP\<close>
  "isSpace c = (let n = (of_char c :: nat) in (9 \<le> n \<and> n \<le> 13) \<or> n = 32 \<or> n = 160)"

definition toLowerChar :: "char \<Rightarrow> char" where
  \<comment> \<open>\<open>A-Z\<close>, and the Latin-1 capitals U+00C0..U+00DE except the multiplication sign\<close>
  "toLowerChar c =
     (let n = (of_char c :: nat)
      in if (65 \<le> n \<and> n \<le> 90) \<or> (192 \<le> n \<and> n \<le> 222 \<and> n \<noteq> 215)
         then char_of (n + 32) else c)"

definition toLowerCase :: "string \<Rightarrow> string" where
  "toLowerCase s = map toLowerChar s"

subsection \<open>String helpers of the language\<close>

fun split :: "char \<Rightarrow> string \<Rightarrow> string list" where
  \<comment> \<open>\<open>s.split(sep)\<close> for a one-character separator; \<open>''.split(sep)\<close> is \<open>['']\<close>\<close>
  "split sep [] = [[]]"
| "split sep (c # cs) =
     (if c = sep then [] # split sep cs
      else (case split sep cs of
              [] \<Rightarrow> [[c]]
            | t # ts \<Rightarrow> (c # t) # ts))"

fun join :: "char \<Rightarrow> string list \<Rightarrow> string" where
  \<comment> \<open>\<open>ts.join(sep)\<close>\<close>
  "join sep [] = []"
| "join sep [t] = t"
| "join sep (t # u # ts) = t @ sep # join sep (u # ts)"

fun insertCamelSpaces :: "string \<Rightarrow> string" where
  \<comment> \<open>\<open>name.replace(/([a-z])([A-Z])/g, '$1 $2')\<close>\<close>
  "insertCamelSpaces [] = []"
| "insertCamelSpaces [c] = [c]"
| "insertCamelSpaces (c # d # cs) =
     (if isLowerAZ c \<and> isUpperAZ d then c # CHR '' '' # insertCamelSpaces (d # cs)
      else c # insertCamelSpaces (d # cs))"

fun replaceNonAlnumRuns :: "bool \<Rightarrow> string \<Rightarrow> string" where
  \<comment> \<open>\<open>s.replace(/[^a-z0-9]+/g, ' ')\<close>; the flag says that a run is being consumed\<close>
  "replaceNonAlnumRuns inRun [] = []"
| "replaceNonAlnumRuns inRun (c # cs) =
     (if isAlnum c then c # replaceNonAlnumRuns False cs
      else if inRun then replaceNonAlnumRuns True cs
      else CHR '' '' # replaceNonAlnumRuns True cs)"

fun replaceSpaceRuns :: "bool \<Rightarrow> string \<Rightarrow> string" where
  \<comment> \<open>\<open>s.replace(/\s+/g, '_')\<close>\<close>
  "replaceSpaceRuns inRun [] = []"
| "replaceSpaceRuns inRun (c # cs) =
     (if \<not> isSpace c then c # replaceSpaceRuns False cs
      else if inRun then replaceSpaceRuns True cs
      else CHR ''_'' # replaceSpaceRuns True cs)"

subsection \<open>Constants\<close>

definition SYNONYM_ENTRIES :: "(string \<times> string) list" where
  \<comment> \<open>the properties of the object literal, in the order written\<close>
  "SYNONYM_ENTRIES =
     [(''ball_valve'', ''valve''),
      (''gate_valve'', ''gate_valve''),
      (''globe_valve'', ''valve''),
      (''check_valve'', ''check_valve''),
      (''control_valve'', ''control_valve''),
      (''pressure_gauge'', ''pressure_indicator''),
      (''pressure_indicator'', ''pressure_indicator''),
      (''temperature_indicator'', ''temperature_indicator''),
      (''temperature_control'', ''temperature_control''),
      (''flow_indicator'', ''flow_indicator''),
      (''flow_control'', ''flow_control''),
      (''level_indicator'', ''level_indicator''),
      (''level_control'', ''level_control''),
      (''heat_exchanger'', ''heat_exchanger''),
      (''condenser'', ''heat_exchanger''),
      (''reboiler'', ''heat_exchanger''),
      (''evaporator'', ''heat_exchanger''),
      (''compressor'', ''compressor''),
      (''blower'', ''compressor''),
      (''pump'', ''pump''),
      (''meter'', ''meter''),
      (''sensor'', ''sensor''),
      (''reactor'', ''reactor''),
      (''vessel'', ''vessel''),
      (''drum'', ''vessel''),
      (''column'', ''vessel''),
      (''knockout'', ''separator''),
      (''separator'', ''separator''),
      (''tank'', ''tank''),
      (''filter'', ''filter''),
      (''strainer'', ''filter''),
      (''controller'', ''controller'')]"

definition SYNONYM_MAP :: "string \<Rightarrow> string option" where
  \<comment> \<open>\<open>SYNONYM_MAP[key]\<close>; \<open>None\<close> also stands for an inherited property, whose value
      is no string and so is never among the catalog names\<close>
  "SYNONYM_MAP = map_of SYNONYM_ENTRIES"

definition STOPWORDS :: "string list" where
  "STOPWORDS = [''the'', ''a'', ''an'', ''of'', ''and'', ''unit'', ''system'', ''station'',
                ''main'', ''aux'', ''spare'', ''area'', ''section'', ''line'']"

definition MAX_LEN :: nat where
  "MAX_LEN = 1000"

subsection \<open>normalizeName and tokenize\<close>

definition normalizeName :: "string \<Rightarrow> string" where
  "normalizeName name =
     (if name = [] then []
      else let spaced = insertCamelSpaces name;
               cleaned = replaceNonAlnumRuns False (toLowerCase spaced);
               tokens = filter (\<lambda>t. t \<noteq> [] \<and> t \<notin> set STOPWORDS) (split (CHR '' '') cleaned)
           in join (CHR ''_'') tokens)"

definition tokenize :: "string \<Rightarrow> string list" where
  "tokenize s = filter (\<lambda>t. t \<noteq> []) (split (CHR ''_'') s)"

subsection \<open>levenshteinDistance\<close>

definition setCell :: "nat list list \<Rightarrow> nat \<Rightarrow> nat \<Rightarrow> nat \<Rightarrow> nat list list" where
  \<comment> \<open>\<open>matrix[j][i] = v\<close>\<close>
  "setCell m j i v = m[j := (m ! j)[i := v]]"

definition fillCell :: "string \<Rightarrow> string \<Rightarrow> nat \<Rightarrow> nat \<Rightarrow> nat list list \<Rightarrow> nat list list" where
  \<comment> \<open>the body of the inner loop\<close>
  "fillCell str1 str2 j i m =
     (let indicator = (if str1 ! (i - 1) = str2 ! (j - 1) then 0 else 1)
      in setCell m j i
           (min (min (m ! j ! (i - 1) + 1) (m ! (j - 1) ! i + 1))
                (m ! (j - 1) ! (i - 1) + indicator)))"

definition levenshteinDistance :: "string \<Rightarrow> string \<Rightarrow> nat" where
  "levenshteinDistance str1 str2 =
     (if length str1 > MAX_LEN \<or> length str2 > MAX_LEN
      then max (length str1) (length str2)
      else let len1 = length str1;
               len2 = length str2;
               matrix0 = replicate (len2 + 1) (replicate (len1 + 1) 0);
               matrix1 = fold (\<lambda>i m. setCell m 0 i i) [0..<len1 + 1] matrix0;
               matrix2 = fold (\<lambda>j m. setCell m j 0 j) [0..<len2 + 1] matrix1;
               matrix3 = fold (\<lambda>j m. fold (fillCell str1 str2 j) [1..<len1 + 1] m)
                              [1..<len2 + 1] matrix2
           in matrix3 ! len2 ! len1)"

text \<open>
  The classic edit distance between the first \<open>i\<close> characters of \<open>a\<close> and the first
  \<open>j\<close> characters of \<open>b\<close>, as a recurrence; the matrix of the source is compared with it.
\<close>

fun editDistance :: "string \<Rightarrow> string \<Rightarrow> nat \<Rightarrow> nat \<Rightarrow> nat" where
  "editDistance a b 0 j = j"
| "editDistance a b (Suc i) 0 = Suc i"
| "editDistance a b (Suc i) (Suc j) =
     min (min (editDistance a b i (Suc j) + 1) (editDistance a b (Suc i) j + 1))
         (editDistance a b i j + (if a ! i = b ! j then 0 else 1))"

subsection \<open>calculateSimilarity and findBestSymbol\<close>

definition calculateSimilarity :: "string \<Rightarrow> string \<Rightarrow> rat" where
  "calculateSimilarity str1 str2 =
     (let maxLen = max (length str1) (length str2);
          editScore = (if maxLen = 0 then 1
                       else 1 - of_nat (levenshteinDistance str1 str2) / of_nat maxLen);
          t1 = tokenize str1;
          t2 = tokenize str2;
          tokenHits = length (filter (\<lambda>t. t \<in> set t2) t1);
          tokenScore = (if length t1 \<noteq> 0 then of_nat tokenHits / of_nat (length t1) else 0)
      in 65 / 100 * tokenScore + 35 / 100 * editScore)"

definition scoreSymbols :: "string list \<Rightarrow> string \<Rightarrow> (string \<times> rat) list" where
  \<comment> \<open>\<open>SYMBOL_NAMES.map(...)\<close> followed by the stable descending sort\<close>
  "scoreSymbols names normalized =
     sort_key (\<lambda>s. - snd s) (map (\<lambda>symbol. (symbol, calculateSimilarity normalized symbol)) names)"

definition findBestSymbol :: "string list \<Rightarrow> string \<Rightarrow> string option" where
  \<comment> \<open>the first argument is the global \<open>SYMBOL_NAMES\<close>; \<open>None\<close> is \<open>null\<close>\<close>
  "findBestSymbol names nodeName =
     (if names = [] then None
      else let normalized = normalizeName nodeName
           in if normalized = [] then None
              else if length normalized > 500 then None
              else if normalized \<in> set names then Some normalized
              else (case SYNONYM_MAP normalized of
                      Some synonym \<Rightarrow>
                        if synonym \<in> set names then Some synonym
                        else (let best = hd (scoreSymbols names normalized)
                              in if snd best \<ge> 4 / 10 then Some (fst best) else None)
                    | None \<Rightarrow>
                        (let best = hd (scoreSymbols names normalized)
                         in if snd best \<ge> 4 / 10 then Some (fst best) else None)))"

definition tokensOf :: "string \<Rightarrow> string list" where
  \<comment> \<open>the local \<open>tokens\<close> of normalizeName, for a non-empty name\<close>
  "tokensOf name = filter (\<lambda>t. t \<noteq> [] \<and> t \<notin> set STOPWORDS)
     (split (CHR '' '') (replaceNonAlnumRuns False (toLowerCase (insertCamelSpaces name))))"

subsection \<open>loadSymbols\<close>

text \<open>
  What the endpoint can answer. A symbol entry is a string, an object (of which only
  \<open>name\<close> is read: a string or absent), \<open>null\<close>, or another primitive. The field
  \<open>symbols\<close> is falsy, an array, or a truthy value that is no array. The payload is
  \<open>null\<close>, a primitive, or an object, of which the truthiness of \<open>success\<close> and the
  field \<open>symbols\<close> are read.
\<close>

datatype symbolEntry = SymString string | SymObject "string option" | SymNull | SymOther

datatype symbolsField = SymbolsFalsy | SymbolsNotArray | SymbolsArray "symbolEntry list"

datatype payload = DataNull | DataPrimitive | DataObject bool symbolsField

datatype response = FetchRejected | HttpError | JsonRejected | JsonData payload

datatype error = TypeError

record catalog =
  ALL_SYMBOLS :: symbolsField
  SYMBOL_NAMES :: "string list"
  SYMBOLS_LOADED :: bool

definition initialCatalog :: catalog where
  "initialCatalog = \<lparr>ALL_SYMBOLS = SymbolsArray [], SYMBOL_NAMES = [], SYMBOLS_LOADED = False\<rparr>"

text \<open>The page: the catalog and the number of requests to \<open>/api/symbols\<close> issued so far.\<close>

record world =
  cat :: catalog
  fetches :: nat

definition initialWorld :: world where
  "initialWorld = \<lparr>cat = initialCatalog, fetches = 0\<rparr>"

fun symbolName :: "symbolEntry \<Rightarrow> error + string option" where
  \<comment> \<open>the callback of \<open>data.symbols.map\<close>; \<open>None\<close> is a falsy result\<close>
  "symbolName (SymString s) = Inr (Some s)"
| "symbolName (SymObject (Some n)) =
     (if n \<noteq> [] then Inr (Some (replaceSpaceRuns False (toLowerCase n))) else Inr None)"
| "symbolName (SymObject None) = Inr None"
| "symbolName SymNull = Inl TypeError"
| "symbolName SymOther = Inr None"

fun mapSymbolNames :: "symbolEntry list \<Rightarrow> error + string option list" where
  "mapSymbolNames [] = Inr []"
| "mapSymbolNames (e # es) =
     (case symbolName e of
        Inl err \<Rightarrow> Inl err
      | Inr n \<Rightarrow> (case mapSymbolNames es of Inl err \<Rightarrow> Inl err | Inr ns \<Rightarrow> Inr (n # ns)))"

definition filterBoolean :: "string option list \<Rightarrow> string list" where
  \<comment> \<open>\<open>.filter(Boolean)\<close>: drops \<open>null\<close> and the empty string\<close>
  "filterBoolean ns = filter (\<lambda>s. s \<noteq> []) (List.map_filter (\<lambda>n. n) ns)"

definition storeSymbols :: "symbolsField \<Rightarrow> catalog \<Rightarrow> catalog" where
  \<comment> \<open>the branch \<open>data.success && data.symbols\<close>; an error raised after the first
      assignment reaches the \<open>catch\<close> with that assignment done\<close>
  "storeSymbols symbols c =
     (let c1 = c\<lparr>ALL_SYMBOLS := symbols\<rparr>
      in case symbols of
           SymbolsArray es \<Rightarrow>
             (case mapSymbolNames es of
                Inl err \<Rightarrow> c1
              | Inr ns \<Rightarrow> c1\<lparr>SYMBOL_NAMES := filterBoolean ns, SYMBOLS_LOADED := True\<rparr>)
         | SymbolsNotArray \<Rightarrow> c1
         | SymbolsFalsy \<Rightarrow> c1)"

fun loadSymbolsSettle :: "response \<Rightarrow> catalog \<Rightarrow> catalog" where
  \<comment> \<open>the rest of loadSymbols after its two awaits, for each way they can settle;
      every error is caught and logged\<close>
  "loadSymbolsSettle FetchRejected c = c"
| "loadSymbolsSettle HttpError c = c"
| "loadSymbolsSettle JsonRejected c = c"
| "loadSymbolsSettle (JsonData DataNull) c = c"
| "loadSymbolsSettle (JsonData DataPrimitive) c = c"
| "loadSymbolsSettle (JsonData (DataObject success symbols)) c =
     (if success \<and> symbols \<noteq> SymbolsFalsy then storeSymbols symbols c else c)"

datatype loadState = Awaiting | Finished

definition loadSymbolsStart :: "world \<Rightarrow> loadState \<times> world" where
  \<comment> \<open>loadSymbols up to its first await: the guard, then the request\<close>
  "loadSymbolsStart w =
     (if SYMBOLS_LOADED (cat w) then (Finished, w)
      else (Awaiting, w\<lparr>fetches := fetches w + 1\<rparr>))"

definition loadSymbolsResume :: "response \<Rightarrow> world \<Rightarrow> world" where
  "loadSymbolsResume r w = w\<lparr>cat := loadSymbolsSettle r (cat w)\<rparr>"


text \<open>
  Calls that overlap: \<open>Invoke\<close> starts a call, which runs to its first await;
  \<open>Settle r\<close> resumes one suspended call with the answer \<open>r\<close> to its request. The
  suspended calls run the same code, so their number is all the state they add.
\<close>

datatype event = Invoke | Settle response

record system =
  page :: world
  suspended :: nat

definition initialSystem :: system where
  "initialSystem = \<lparr>page = initialWorld, suspended = 0\<rparr>"

fun step :: "event \<Rightarrow> system \<Rightarrow> system" where
  "step Invoke s =
     (case loadSymbolsStart (page s) of
        (Finished, w) \<Rightarrow> s\<lparr>page := w\<rparr>
      | (Awaiting, w) \<Rightarrow> s\<lparr>page := w, suspended := suspended s + 1\<rparr>)"
| "step (Settle r) s =
     (if suspended s = 0 then s
      else s\<lparr>page := loadSymbolsResume r (page s), suspended := suspended s - 1\<rparr>)"

definition run :: "event list \<Rightarrow> system \<Rightarrow> system" where
  "run evs s = fold step evs s"

subsection \<open>getNodeStyle\<close>



section \<open>Graph renderer and layout persister (static/graph_viewer.js)\<close>













subsection \<open>saveNodePositions and loadNodePositions\<close>



subsection \<open>initGraphViewer\<close>








subsection \<open>Snap to grid and the drag handler\<close>




section \<open>Reference notions and example inputs\<close>




definition valveNetwork :: "nat \<Rightarrow> response" where
  \<comment> \<open>every request is answered with a catalog of two symbols\<close>
  "valveNetwork k =
     JsonData (DataObject True (SymbolsArray [SymObject (Some ''Valve''), SymString ''pump'']))"




section \<open>Invariants of the distance matrix\<close>

definition shaped :: "nat \<Rightarrow> nat \<Rightarrow> nat list list \<Rightarrow> bool" where
  \<comment> \<open>the matrix has \<open>len2 + 1\<close> rows of \<open>len1 + 1\<close> cells\<close>
  "shaped len1 len2 m \<longleftrightarrow> length m = len2 + 1 \<and> (\<forall>j \<le> len2. length (m ! j) = len1 + 1)"

definition firstRowDone :: "nat \<Rightarrow> nat \<Rightarrow> nat \<Rightarrow> nat list list \<Rightarrow> bool" where
  "firstRowDone len1 len2 k m \<longleftrightarrow> shaped len1 len2 m \<and> (\<forall>i < k. m ! 0 ! i = i)"

definition firstColumnDone :: "nat \<Rightarrow> nat \<Rightarrow> nat \<Rightarrow> nat list list \<Rightarrow> bool" where
  "firstColumnDone len1 len2 k m \<longleftrightarrow>
     shaped len1 len2 m \<and> (\<forall>i \<le> len1. m ! 0 ! i = i) \<and> (\<forall>j < k. m ! j ! 0 = j)"

definition rowsDone :: "string \<Rightarrow> string \<Rightarrow> nat \<Rightarrow> nat list list \<Rightarrow> bool" where
  \<comment> \<open>the rows below \<open>k\<close> hold the edit distances of the prefixes\<close>
  "rowsDone a b k m \<longleftrightarrow>
     shaped (length a) (length b) m \<and> (\<forall>j \<le> length b. m ! j ! 0 = j) \<and>
     (\<forall>j < k. \<forall>i \<le> length a. m ! j ! i = editDistance a b i j)"

definition cellsDone :: "string \<Rightarrow> string \<Rightarrow> nat \<Rightarrow> nat \<Rightarrow> nat list list \<Rightarrow> bool" where
  "cellsDone a b j k m \<longleftrightarrow>
     rowsDone a b j m \<and> (\<forall>i < k. m ! j ! i = editDistance a b i j)"

section \<open>Properties of the matcher\<close>

subsection \<open>normalizeName\<close>

lemma split_not_Nil: "split sep s \<noteq> []"
  by (induction s) (auto split: list.splits)

lemma split_chars: "t \<in> set (split sep s) \<Longrightarrow> c \<in> set t \<Longrightarrow> c \<in> set s \<and> c \<noteq> sep"
proof (induction s arbitrary: t)
  case Nil
  then show ?case by simp
next
  case (Cons d ds)
  show ?case
  proof (cases "d = sep")
    case True
    with Cons show ?thesis by auto
  next
    case False
    obtain u us where sp: "split sep ds = u # us"
      using split_not_Nil by (cases "split sep ds") auto
    from Cons.prems False sp have "t = d # u \<or> t \<in> set us" by auto
    then show ?thesis
    proof
      assume "t = d # u"
      with Cons.prems(2) have "c = d \<or> c \<in> set u" by auto
      then show ?thesis using Cons.IH[of u] sp False by auto
    next
      assume "t \<in> set us"
      then show ?thesis using Cons.IH[of t] sp Cons.prems(2) by auto
    qed
  qed
qed

lemma replaceNonAlnumRuns_chars:
  "c \<in> set (replaceNonAlnumRuns b s) \<Longrightarrow> isAlnum c \<or> c = CHR '' ''"
  by (induction b s rule: replaceNonAlnumRuns.induct) (auto split: if_splits)

lemma isAlnum_not_space: "isAlnum c \<Longrightarrow> c \<noteq> CHR '' ''"
  by (auto simp: isAlnum_def isLowerAZ_def isDigit_def)

lemma isAlnum_not_underscore: "isAlnum c \<Longrightarrow> c \<noteq> CHR ''_''"
  by (auto simp: isAlnum_def isLowerAZ_def isDigit_def)

lemma underscore_not_alnum: "\<not> isAlnum (CHR ''_'')"
  by (simp add: isAlnum_def isLowerAZ_def isDigit_def)

lemma isAlnum_not_upper: "isAlnum c \<Longrightarrow> \<not> isUpperAZ c"
  by (auto simp: isAlnum_def isLowerAZ_def isDigit_def isUpperAZ_def Let_def)

lemma underscore_not_upper: "\<not> isUpperAZ (CHR ''_'')"
  by (simp add: isUpperAZ_def)

lemma toLowerChar_alnum: "isAlnum c \<Longrightarrow> toLowerChar c = c"
  by (auto simp: isAlnum_def isLowerAZ_def isDigit_def toLowerChar_def Let_def)

lemma toLowerChar_underscore: "toLowerChar (CHR ''_'') = CHR ''_''"
  by (simp add: toLowerChar_def)

lemma insertCamelSpaces_id: "\<forall>c\<in>set s. \<not> isUpperAZ c \<Longrightarrow> insertCamelSpaces s = s"
  by (induction s rule: insertCamelSpaces.induct) auto

lemma toLowerCase_id: "\<forall>c\<in>set s. isAlnum c \<or> c = CHR ''_'' \<Longrightarrow> toLowerCase s = s"
  unfolding toLowerCase_def
  by (induction s) (auto simp: toLowerChar_alnum toLowerChar_underscore)

lemma replaceNonAlnumRuns_append:
  "\<forall>c\<in>set t. isAlnum c \<Longrightarrow>
   replaceNonAlnumRuns b (t @ r) = t @ replaceNonAlnumRuns (if t = [] then b else False) r"
  by (induction t arbitrary: b) auto

lemma replaceNonAlnumRuns_alnum: "\<forall>c\<in>set t. isAlnum c \<Longrightarrow> replaceNonAlnumRuns b t = t"
  by (induction t arbitrary: b) auto

lemma replaceNonAlnumRuns_join:
  "\<forall>t\<in>set ts. t \<noteq> [] \<and> (\<forall>c\<in>set t. isAlnum c) \<Longrightarrow>
   replaceNonAlnumRuns b (join (CHR ''_'') ts) = join (CHR '' '') ts"
proof (induction "CHR ''_''" ts arbitrary: b rule: join.induct)
  case 1
  then show ?case by simp
next
  case (2 t)
  then show ?case by (simp add: replaceNonAlnumRuns_alnum)
next
  case (3 t u ts)
  have t: "t \<noteq> []" "\<forall>c\<in>set t. isAlnum c" using 3(2) by auto
  have rest: "replaceNonAlnumRuns True (join (CHR ''_'') (u # ts)) = join (CHR '' '') (u # ts)"
    using 3 by simp
  show ?case
    using t rest by (simp add: replaceNonAlnumRuns_append underscore_not_alnum)
qed

lemma split_no_sep: "sep \<notin> set t \<Longrightarrow> split sep t = [t]"
  by (induction t) auto

lemma split_append_sep: "sep \<notin> set t \<Longrightarrow> split sep (t @ sep # r) = t # split sep r"
  by (induction t) auto

lemma split_join: "ts \<noteq> [] \<Longrightarrow> \<forall>t\<in>set ts. sep \<notin> set t \<Longrightarrow> split sep (join sep ts) = ts"
  by (induction sep ts rule: join.induct) (auto simp: split_no_sep split_append_sep)

lemma join_chars: "c \<in> set (join sep ts) \<Longrightarrow> c = sep \<or> (\<exists>t\<in>set ts. c \<in> set t)"
  by (induction sep ts rule: join.induct) auto

lemma join_Nil_iff: "\<forall>t\<in>set ts. t \<noteq> [] \<Longrightarrow> join sep ts = [] \<longleftrightarrow> ts = []"
  by (induction sep ts rule: join.induct) auto

lemma normalizeName_tokens: "normalizeName name = (if name = [] then [] else join (CHR ''_'') (tokensOf name))"
  by (simp add: normalizeName_def tokensOf_def Let_def)

lemma normalize_join_tokens:
  assumes ok: "\<forall>t\<in>set ts. t \<noteq> [] \<and> t \<notin> set STOPWORDS \<and> (\<forall>c\<in>set t. isAlnum c)"
  shows "normalizeName (join (CHR ''_'') ts) = join (CHR ''_'') ts"
proof (cases "ts = []")
  case True
  then show ?thesis by (simp add: normalizeName_def)
next
  case False
  let ?n = "join (CHR ''_'') ts"
  have ne: "?n \<noteq> []" using ok False join_Nil_iff[of ts] by blast
  have chars: "\<forall>c\<in>set ?n. isAlnum c \<or> c = CHR ''_''"
    using ok join_chars by blast
  have noUpper: "\<forall>c\<in>set ?n. \<not> isUpperAZ c"
    using chars isAlnum_not_upper underscore_not_upper by blast
  have c1: "insertCamelSpaces ?n = ?n" using noUpper by (rule insertCamelSpaces_id)
  have c2: "toLowerCase ?n = ?n" using chars by (rule toLowerCase_id)
  have c3: "replaceNonAlnumRuns False ?n = join (CHR '' '') ts"
    using ok by (simp add: replaceNonAlnumRuns_join)
  have c4: "split (CHR '' '') (join (CHR '' '') ts) = ts"
    using False ok isAlnum_not_space by (intro split_join) auto
  have c5: "filter (\<lambda>t. t \<noteq> [] \<and> t \<notin> set STOPWORDS) ts = ts"
    using ok by (simp add: filter_id_conv)
  show ?thesis
    using ne by (simp add: normalizeName_def Let_def c1 c2 c3 c4 c5 del: set_filter)
qed

lemma tokensOf_ok:
  "\<forall>t\<in>set (tokensOf name). t \<noteq> [] \<and> t \<notin> set STOPWORDS \<and> (\<forall>c\<in>set t. isAlnum c)"
proof (intro ballI conjI)
  fix t assume t: "t \<in> set (tokensOf name)"
  then show "t \<noteq> []" "t \<notin> set STOPWORDS" by (auto simp: tokensOf_def)
  fix c assume c: "c \<in> set t"
  from t have "t \<in> set (split (CHR '' '')
      (replaceNonAlnumRuns False (toLowerCase (insertCamelSpaces name))))"
    by (simp add: tokensOf_def)
  from split_chars[OF this c] show "isAlnum c"
    using replaceNonAlnumRuns_chars by blast
qed

text \<open>
  Claim C4: normalizeName is idempotent: for every input string \<open>x\<close>, normalizing the
  normalized name gives the normalized name again.
\<close>

theorem normalizeName_idempotent: "normalizeName (normalizeName x) = normalizeName x"
proof (cases "x = []")
  case True
  then show ?thesis by (simp add: normalizeName_def)
next
  case False
  then have "normalizeName x = join (CHR ''_'') (tokensOf x)"
    by (simp add: normalizeName_tokens)
  then show ?thesis using normalize_join_tokens[OF tokensOf_ok[of x]] by simp
qed

subsection \<open>levenshteinDistance\<close>

lemma fold_upt_invariant:
  assumes "P a m0" and "a \<le> b"
    and "\<And>k m. a \<le> k \<Longrightarrow> k < b \<Longrightarrow> P k m \<Longrightarrow> P (Suc k) (f k m)"
  shows "P b (fold f [a..<b] m0)"
  using assms(2,3)
proof (induction b)
  case 0
  then show ?case using assms(1) by simp
next
  case (Suc b)
  show ?case
  proof (cases "a = Suc b")
    case True
    then show ?thesis using assms(1) by simp
  next
    case False
    with Suc.prems have ab: "a \<le> b" by simp
    have "P b (fold f [a..<b] m0)"
      using Suc.IH[OF ab] Suc.prems(2) by simp
    then have "P (Suc b) (f b (fold f [a..<b] m0))"
      using Suc.prems(2)[of b] ab by simp
    then show ?thesis using ab by simp
  qed
qed

lemma shaped_setCell:
  assumes "shaped len1 len2 m"
  shows "shaped len1 len2 (setCell m j i v)"
proof -
  have len: "length m = len2 + 1" and rows: "\<And>k. k \<le> len2 \<Longrightarrow> length (m ! k) = len1 + 1"
    using assms by (auto simp: shaped_def)
  have "length (setCell m j i v ! k) = len1 + 1" if k: "k \<le> len2" for k
  proof (cases "k = j")
    case True
    then show ?thesis using k len rows[OF k] by (simp add: setCell_def)
  next
    case False
    then show ?thesis using rows[OF k] by (simp add: setCell_def)
  qed
  then show ?thesis using len by (simp add: shaped_def setCell_def)
qed

lemma nth_setCell:
  "shaped len1 len2 m \<Longrightarrow> j \<le> len2 \<Longrightarrow> i \<le> len1 \<Longrightarrow> j' \<le> len2 \<Longrightarrow>
   setCell m j i v ! j' ! i' = (if j' = j \<and> i' = i then v else m ! j' ! i')"
  by (auto simp: shaped_def setCell_def nth_list_update)

lemma shaped_replicate: "shaped len1 len2 (replicate (len2 + 1) (replicate (len1 + 1) 0))"
  by (auto simp: shaped_def nth_replicate simp del: replicate_Suc)

lemma editDistance_0: "editDistance a b i 0 = i"
  by (cases i) auto

lemma firstRow:
  "firstRowDone len1 len2 (len1 + 1)
     (fold (\<lambda>i m. setCell m 0 i i) [0..<len1 + 1] (replicate (len2 + 1) (replicate (len1 + 1) 0)))"
proof (rule fold_upt_invariant)
  show "firstRowDone len1 len2 0 (replicate (len2 + 1) (replicate (len1 + 1) 0))"
    using shaped_replicate by (simp add: firstRowDone_def)
  show "0 \<le> len1 + 1" by simp
  fix k m assume "k < len1 + 1" and inv: "firstRowDone len1 len2 k m"
  then show "firstRowDone len1 len2 (Suc k) (setCell m 0 k k)"
    by (auto simp: firstRowDone_def shaped_setCell nth_setCell less_Suc_eq)
qed

lemma firstColumn:
  assumes "firstRowDone len1 len2 (len1 + 1) m0"
  shows "firstColumnDone len1 len2 (len2 + 1) (fold (\<lambda>j m. setCell m j 0 j) [0..<len2 + 1] m0)"
proof (rule fold_upt_invariant)
  show "firstColumnDone len1 len2 0 m0"
    using assms by (simp add: firstColumnDone_def firstRowDone_def)
  show "0 \<le> len2 + 1" by simp
  fix k m assume "k < len2 + 1" and inv: "firstColumnDone len1 len2 k m"
  then show "firstColumnDone len1 len2 (Suc k) (setCell m k 0 k)"
    by (auto simp: firstColumnDone_def shaped_setCell nth_setCell less_Suc_eq)
qed

lemma fillCell_step:
  assumes inv: "cellsDone a b j k m" and j: "1 \<le> j" "j \<le> length b" and k: "1 \<le> k" "k \<le> length a"
  shows "cellsDone a b j (Suc k) (fillCell a b j k m)"
proof -
  obtain j0 k0 where jk: "j = Suc j0" "k = Suc k0"
    using j k by (cases j; cases k) auto
  have sh: "shaped (length a) (length b) m" using inv by (simp add: cellsDone_def rowsDone_def)
  have left: "m ! j ! k0 = editDistance a b k0 j"
    using inv jk by (simp add: cellsDone_def)
  have up: "m ! j0 ! k = editDistance a b k j0" and diag: "m ! j0 ! k0 = editDistance a b k0 j0"
    using inv jk k by (auto simp: cellsDone_def rowsDone_def)
  have val: "min (min (m ! j ! (k - 1) + 1) (m ! (j - 1) ! k + 1))
                (m ! (j - 1) ! (k - 1) + (if a ! (k - 1) = b ! (j - 1) then 0 else 1))
             = editDistance a b k j"
    using left up diag jk by simp
  have get: "\<And>j' i'. j' \<le> length b \<Longrightarrow>
      fillCell a b j k m ! j' ! i' = (if j' = j \<and> i' = k then editDistance a b k j else m ! j' ! i')"
    unfolding fillCell_def Let_def val using nth_setCell[OF sh j(2) k(2)] by simp
  have sh': "shaped (length a) (length b) (fillCell a b j k m)"
    unfolding fillCell_def Let_def using sh by (rule shaped_setCell)
  show ?thesis
    unfolding cellsDone_def rowsDone_def
    using inv sh' j k by (auto simp: get cellsDone_def rowsDone_def less_Suc_eq)
qed

lemma fillRow:
  assumes inv: "rowsDone a b j m" and j: "1 \<le> j" "j \<le> length b"
  shows "rowsDone a b (Suc j) (fold (fillCell a b j) [1..<length a + 1] m)"
proof -
  define m1 where "m1 = fold (fillCell a b j) [1..<length a + 1] m"
  have "cellsDone a b j (length a + 1) m1"
    unfolding m1_def
  proof (rule fold_upt_invariant)
    show "cellsDone a b j 1 m"
      using inv j by (simp add: cellsDone_def rowsDone_def)
    show "1 \<le> length a + 1" by simp
    fix k m' assume "1 \<le> k" "k < length a + 1" "cellsDone a b j k m'"
    then show "cellsDone a b j (Suc k) (fillCell a b j k m')"
      using fillCell_step j by simp
  qed
  then have rows: "rowsDone a b j m1" and row: "\<And>i. i \<le> length a \<Longrightarrow> m1 ! j ! i = editDistance a b i j"
    by (auto simp: cellsDone_def)
  have "m1 ! j' ! i = editDistance a b i j'" if "j' < Suc j" "i \<le> length a" for j' i
  proof (cases "j' = j")
    case True
    then show ?thesis using row that by simp
  next
    case False
    then show ?thesis using rows that by (simp add: rowsDone_def)
  qed
  then have "rowsDone a b (Suc j) m1"
    using rows by (simp add: rowsDone_def)
  then show ?thesis by (simp only: m1_def)
qed

lemma fillRows:
  assumes "firstColumnDone (length a) (length b) (length b + 1) m0"
  shows "rowsDone a b (length b + 1)
           (fold (\<lambda>j m. fold (fillCell a b j) [1..<length a + 1] m) [1..<length b + 1] m0)"
proof (rule fold_upt_invariant)
  show "rowsDone a b 1 m0"
    using assms by (auto simp: firstColumnDone_def rowsDone_def editDistance_0)
  show "1 \<le> length b + 1" by simp
  fix k m assume "1 \<le> k" "k < length b + 1" "rowsDone a b k m"
  then show "rowsDone a b (Suc k) (fold (fillCell a b k) [1..<length a + 1] m)"
    using fillRow by simp
qed

lemma levenshteinDistance_editDistance:
  assumes "length a \<le> MAX_LEN" "length b \<le> MAX_LEN"
  shows "levenshteinDistance a b = editDistance a b (length a) (length b)"
proof -
  let ?m = "fold (\<lambda>j m. fold (fillCell a b j) [1..<length a + 1] m) [1..<length b + 1]
              (fold (\<lambda>j m. setCell m j 0 j) [0..<length b + 1]
                (fold (\<lambda>i m. setCell m 0 i i) [0..<length a + 1]
                  (replicate (length b + 1) (replicate (length a + 1) 0))))"
  have "rowsDone a b (length b + 1) ?m"
    by (intro fillRows firstColumn firstRow)
  then have "?m ! length b ! length a = editDistance a b (length a) (length b)"
    by (simp add: rowsDone_def)
  then show ?thesis
    using assms by (simp add: levenshteinDistance_def Let_def)
qed

lemma editDistance_sym: "editDistance a b i j = editDistance b a j i"
proof (induction a b i j rule: editDistance.induct)
  case (1 a b j)
  then show ?case by (simp add: editDistance_0)
next
  case (2 a b i)
  then show ?case by simp
next
  case (3 a b i j)
  then show ?case by (simp add: min.commute min.left_commute eq_commute)
qed

lemma editDistance_refl: "editDistance a a i i = 0"
  by (induction i) auto

lemma levenshteinDistance_sym: "levenshteinDistance a b = levenshteinDistance b a"
proof (cases "length a \<le> MAX_LEN \<and> length b \<le> MAX_LEN")
  case True
  then show ?thesis
    using editDistance_sym by (simp add: levenshteinDistance_editDistance)
next
  case False
  then show ?thesis by (auto simp: levenshteinDistance_def max.commute)
qed

lemma levenshteinDistance_refl:
  "levenshteinDistance x x = (if length x \<le> MAX_LEN then 0 else length x)"
proof (cases "length x \<le> MAX_LEN")
  case True
  then show ?thesis
    by (simp add: levenshteinDistance_editDistance editDistance_refl)
next
  case False
  then show ?thesis by (simp add: levenshteinDistance_def)
qed

lemma levenshteinDistance_kitten: "levenshteinDistance ''kitten'' ''sitting'' = 3"
  by code_simp

text \<open>
  Claim C7, as stated, asks for \<open>levenshteinDistance(x, x) = 0\<close> for every string. The
  guard on the lengths answers the longer length for a string of more than 1000
  characters, here for 1001 times the letter a.
\<close>

theorem levenshteinDistance_long_self:
  "levenshteinDistance (replicate 1001 (CHR ''a'')) (replicate 1001 (CHR ''a'')) = 1001"
  by (simp add: levenshteinDistance_def MAX_LEN_def)

text \<open>
  Claim C7, amended: the distance of kitten and sitting is 3; the distance of a string
  to itself is 0 when the string has at most 1000 characters, and is its length
  otherwise; the distance is symmetric for all strings.
\<close>

theorem levenshteinDistance_classic:
  "levenshteinDistance ''kitten'' ''sitting'' = 3 \<and>
   (\<forall>x. levenshteinDistance x x = (if length x \<le> 1000 then 0 else length x)) \<and>
   (\<forall>a b. levenshteinDistance a b = levenshteinDistance b a)"
  using levenshteinDistance_kitten levenshteinDistance_refl levenshteinDistance_sym
  by (simp add: MAX_LEN_def)

theorem levenshteinDistance_classic_witness:
  "levenshteinDistance ''pump'' ''pump'' = 0 \<and>
   levenshteinDistance ''pump'' ''pumps'' = levenshteinDistance ''pumps'' ''pump''"
  using levenshteinDistance_classic by simp

subsection \<open>findBestSymbol\<close>

lemma SYNONYM_MAP_key:
  assumes "SYNONYM_MAP k = Some t"
  shows "k \<noteq> [] \<and> length k \<le> 500"
proof -
  from assms have "(k, t) \<in> set SYNONYM_ENTRIES"
    unfolding SYNONYM_MAP_def by (rule map_of_SomeD)
  moreover have "\<forall>e \<in> set SYNONYM_ENTRIES. fst e \<noteq> [] \<and> length (fst e) \<le> 500"
    by (simp add: SYNONYM_ENTRIES_def)
  ultimately show ?thesis by fastforce
qed

text \<open>
  Claim C5: for every label whose normalized form is not a catalog name but is a key of
  the synonym map whose target is a catalog name, findBestSymbol returns that target,
  whatever the blended scores of the other catalog names are.
\<close>

theorem synonym_priority:
  assumes "normalizeName nodeName \<notin> set names"
    and "SYNONYM_MAP (normalizeName nodeName) = Some target"
    and "target \<in> set names"
  shows "findBestSymbol names nodeName = Some target"
proof -
  have "names \<noteq> []" using assms(3) by auto
  moreover have "normalizeName nodeName \<noteq> []" "length (normalizeName nodeName) \<le> 500"
    using SYNONYM_MAP_key[OF assms(2)] by auto
  ultimately show ?thesis
    using assms by (simp add: findBestSymbol_def Let_def)
qed

text \<open>
  An instance in which another catalog name scores higher than the synonym's target.
\<close>

theorem synonym_priority_witness:
  "normalizeName ''Drum'' \<notin> set [''drums'', ''vessel''] \<and>
   SYNONYM_MAP (normalizeName ''Drum'') = Some ''vessel'' \<and>
   ''vessel'' \<in> set [''drums'', ''vessel''] \<and>
   calculateSimilarity (normalizeName ''Drum'') ''vessel''
     < calculateSimilarity (normalizeName ''Drum'') ''drums'' \<and>
   findBestSymbol [''drums'', ''vessel''] ''Drum'' = Some ''vessel''"
proof -
  have n: "normalizeName ''Drum'' = ''drum''" by code_simp
  have h1: "normalizeName ''Drum'' \<notin> set [''drums'', ''vessel'']" unfolding n by simp
  have h2: "SYNONYM_MAP (normalizeName ''Drum'') = Some ''vessel''"
    unfolding n by code_simp
  have h3: "''vessel'' \<in> set [''drums'', ''vessel'']" by simp
  have s: "calculateSimilarity (normalizeName ''Drum'') ''vessel''
     < calculateSimilarity (normalizeName ''Drum'') ''drums''"
    unfolding n by code_simp
  show ?thesis using synonym_priority[OF h1 h2 h3] h1 h2 h3 s by blast
qed




text \<open>
  Claim C1, as stated, asks that the label ball_valve_A1 resolves to valve for the
  catalog names valve, pump, sensor. The code returns none.
\<close>

theorem ball_valve_A1_unmatched:
  "findBestSymbol [''valve'', ''pump'', ''sensor''] ''ball_valve_A1'' = None"
  by code_simp

text \<open>
  Claim C1, amended: with the catalog names valve, pump, sensor, every label whose
  normalized form is ball_valve resolves to valve, through the synonym map. The label
  ball_valve_A1 has the normalized form ball_valve_a1, which is no catalog name and no
  key of the synonym map; its best score, for valve, is 137/390, below 0.4.
\<close>

theorem ball_valve_resolves:
  "(normalizeName nodeName = ''ball_valve''
      \<longrightarrow> findBestSymbol [''valve'', ''pump'', ''sensor''] nodeName = Some ''valve'') \<and>
   normalizeName ''ball_valve_A1'' = ''ball_valve_a1'' \<and>
   SYNONYM_MAP ''ball_valve_a1'' = None \<and>
   map (calculateSimilarity ''ball_valve_a1'') [''valve'', ''pump'', ''sensor'']
     = [137 / 390, 0, 0]"
proof (intro conjI impI)
  assume n: "normalizeName nodeName = ''ball_valve''"
  have 1: "normalizeName nodeName \<notin> set [''valve'', ''pump'', ''sensor'']"
    unfolding n by simp
  have 2: "SYNONYM_MAP (normalizeName nodeName) = Some ''valve''"
    unfolding n by code_simp
  show "findBestSymbol [''valve'', ''pump'', ''sensor''] nodeName = Some ''valve''"
    using 1 2 by (simp add: findBestSymbol_def Let_def n)
next
  show "normalizeName ''ball_valve_A1'' = ''ball_valve_a1''" by code_simp
next
  show "SYNONYM_MAP ''ball_valve_a1'' = None" by code_simp
next
  show "map (calculateSimilarity ''ball_valve_a1'') [''valve'', ''pump'', ''sensor'']
          = [137 / 390, 0, 0]" by code_simp
qed

theorem ball_valve_resolves_witness:
  "normalizeName ''Ball Valve'' = ''ball_valve'' \<and>
   findBestSymbol [''valve'', ''pump'', ''sensor''] ''Ball Valve'' = Some ''valve''"
proof -
  have n: "normalizeName ''Ball Valve'' = ''ball_valve''" by code_simp
  show ?thesis using ball_valve_resolves[of "''Ball Valve''"] n by simp
qed

section \<open>Properties of the catalog load\<close>



text \<open>
  A payload that passes the guard and then raises while the names are read, here through
  a \<open>null\<close> entry, has \<open>ALL_SYMBOLS\<close> assigned already; the names and the flag stay.
\<close>

lemma loadSymbolsSettle_null_entry:
  "loadSymbolsSettle (JsonData (DataObject True (SymbolsArray [SymNull]))) initialCatalog
   = \<lparr>ALL_SYMBOLS = SymbolsArray [SymNull], SYMBOL_NAMES = [], SYMBOLS_LOADED = False\<rparr>"
  by (simp add: storeSymbols_def initialCatalog_def)



lemma step_Settle_fetches: "fetches (page (step (Settle r) s)) = fetches (page s)"
  by (simp add: loadSymbolsResume_def)

lemma run_Settles_fetches: "fetches (page (run (map Settle rs) s)) = fetches (page s)"
  unfolding run_def
  by (induction rs arbitrary: s) (simp_all add: loadSymbolsResume_def)

text \<open>
  Claim C3, as stated, asks for exactly one request when loadSymbols is called twice and
  the second call starts before the request of the first has settled. The guard reads
  \<open>SYMBOLS_LOADED\<close>, which is still false then, so each call issues its own request.
\<close>

theorem two_concurrent_loads:
  "fetches (page (run [Invoke, Invoke, Settle (valveNetwork 0), Settle (valveNetwork 1)]
                      initialSystem)) = 2"
  by (simp add: run_def initialSystem_def initialWorld_def initialCatalog_def
      loadSymbolsStart_def loadSymbolsResume_def)

text \<open>
  Claim C3, amended: while the catalog is not loaded, two calls of loadSymbols of which
  the second starts before the request of the first has settled issue two requests,
  however the requests settle afterwards; a call that starts when the loaded flag is
  true issues no request and changes nothing.
\<close>

theorem loads_guarded_by_flag:
  "(\<not> SYMBOLS_LOADED (cat (page s))
      \<longrightarrow> fetches (page (run ([Invoke, Invoke] @ map Settle rs) s)) = fetches (page s) + 2) \<and>
   (SYMBOLS_LOADED (cat (page s))
      \<longrightarrow> run [Invoke] s = s)"
proof (intro conjI impI)
  assume "\<not> SYMBOLS_LOADED (cat (page s))"
  then have "fetches (page (run [Invoke, Invoke] s)) = fetches (page s) + 2"
    by (simp add: run_def loadSymbolsStart_def)
  moreover have "run ([Invoke, Invoke] @ map Settle rs) s = run (map Settle rs) (run [Invoke, Invoke] s)"
    by (simp add: run_def)
  ultimately show "fetches (page (run ([Invoke, Invoke] @ map Settle rs) s)) = fetches (page s) + 2"
    by (simp add: run_Settles_fetches)
next
  assume "SYMBOLS_LOADED (cat (page s))"
  then show "run [Invoke] s = s"
    by (simp add: run_def loadSymbolsStart_def)
qed

theorem loads_guarded_by_flag_witness:
  "\<not> SYMBOLS_LOADED (cat (page initialSystem)) \<and>
   fetches (page (run ([Invoke, Invoke] @ map Settle [HttpError, valveNetwork 1]) initialSystem))
     = fetches (page initialSystem) + 2 \<and>
   SYMBOLS_LOADED (cat (page (run [Invoke, Settle (valveNetwork 0)] initialSystem))) \<and>
   run [Invoke] (run [Invoke, Settle (valveNetwork 0)] initialSystem)
     = run [Invoke, Settle (valveNetwork 0)] initialSystem \<and>
   fetches (page (run [Invoke, Settle (valveNetwork 0), Invoke] initialSystem)) = 1"
proof -
  have h1: "\<not> SYMBOLS_LOADED (cat (page initialSystem))"
    by (simp add: initialSystem_def initialWorld_def initialCatalog_def)
  have h2: "SYMBOLS_LOADED (cat (page (run [Invoke, Settle (valveNetwork 0)] initialSystem)))"
    by code_simp
  have 3: "fetches (page (run [Invoke, Settle (valveNetwork 0), Invoke] initialSystem)) = 1"
    by code_simp
  show ?thesis
    using h1 h2 3
      loads_guarded_by_flag[where s = initialSystem and rs = "[HttpError, valveNetwork 1]"]
      loads_guarded_by_flag[where s = "run [Invoke, Settle (valveNetwork 0)] initialSystem"]
    by blast
qed

section \<open>Properties of the graph renderer\<close>

























end
